theory Spec2Isabelle
  imports Complex_Main "HOL-Library.Word"
begin

section \<open>Data model\<close>

text \<open>
  The updater of SteamKM (\<^verbatim>\<open>SteamKM_Updater.py\<close>) and its configuration loader
  (\<^verbatim>\<open>SteamKM_Config.py\<close>). Python's unbounded integers are \<^typ>\<open>int\<close>, byte strings
  are lists of 8-bit words, and the file system is a map from paths to the content of
  the regular file found there. Directories, permissions and locks are not modelled.
\<close>

type_synonym byte = "8 word"
type_synonym bytes = "byte list"
type_synonym path = string
type_synonym filesystem = "path \<rightharpoonup> bytes"

text \<open>
  The exceptions that travel through the two modules. \<open>RequestException\<close> stands for
  \<^verbatim>\<open>requests.exceptions.RequestException\<close> and its subclasses, \<open>InvalidVersion\<close>
  for \<^verbatim>\<open>packaging.version.InvalidVersion\<close> (it carries the string that was
  rejected), \<open>Exception\<close> for the plain \<^verbatim>\<open>Exception(msg)\<close> that \<^verbatim>\<open>download_update\<close>
  raises itself, and the last two for the \<^verbatim>\<open>OSError\<close>s of \<^verbatim>\<open>os.remove\<close> and
  \<^verbatim>\<open>os.rename\<close> (they carry the path).
\<close>

datatype exn =
    RequestException string
  | InvalidVersion string
  | Exception string
  | FileNotFoundError path
  | FileExistsError path

text \<open>
  A release as the GitHub API returns it, restricted to the keys the code reads. Every
  key is read with \<^verbatim>\<open>dict.get\<close>, so each may be absent (\<open>None\<close>).
\<close>

record asset =
  asset_name :: "string option"
  browser_download_url :: "string option"
  asset_size :: "int option"

record release =
  tag_name :: "string option"
  assets :: "asset list option"

text \<open>
  What the code does to the outside world besides the file system: the HTTP requests it
  issues and the calls of \<^verbatim>\<open>progress_callback\<close>, in the order they happen.
\<close>

datatype event =
    HttpGet "string option"
  | ProgressCallback int int

text \<open>
  The environment of one run of \<^verbatim>\<open>download_update\<close>:
  \<^item> \<open>posix\<close>: whether \<^verbatim>\<open>os.rename\<close> silently replaces an existing destination
    (POSIX) or raises \<^verbatim>\<open>FileExistsError\<close> (Windows);
  \<^item> \<open>script_path\<close>: \<^verbatim>\<open>os.path.realpath(sys.executable)\<close>;
  \<^item> \<open>release_response\<close>: the outcome of the request for the release (lines 37-38), an
    exception of \<^verbatim>\<open>requests\<close> or the decoded JSON;
  \<^item> \<open>download_response\<close>: the outcome of the streamed request for the asset (lines
    50-51), an exception or the chunks that \<^verbatim>\<open>iter_content\<close> yields, followed by the
    exception that ends the iteration early, if any.
\<close>

record environment =
  posix :: bool
  script_path :: path
  release_response :: "exn + release"
  download_response :: "exn + (bytes list \<times> exn option)"

section \<open>File system operations\<close>

text \<open>
  \<^verbatim>\<open>os.path.exists\<close>, \<^verbatim>\<open>os.remove\<close> and \<^verbatim>\<open>os.rename\<close> on regular files. Removing or
  renaming a file that is not there raises \<^verbatim>\<open>FileNotFoundError\<close>. Renaming onto an
  existing file replaces it when \<open>px\<close> holds (POSIX) and raises \<^verbatim>\<open>FileExistsError\<close>
  otherwise (Windows).
\<close>

definition os_path_exists :: "path \<Rightarrow> filesystem \<Rightarrow> bool" where
  "os_path_exists p fs = (fs p \<noteq> None)"

definition os_remove :: "path \<Rightarrow> filesystem \<Rightarrow> exn + filesystem" where
  "os_remove p fs =
     (if fs p \<noteq> None then Inr (fs(p := None)) else Inl (FileNotFoundError p))"

definition os_rename :: "bool \<Rightarrow> path \<Rightarrow> path \<Rightarrow> filesystem \<Rightarrow> exn + filesystem" where
  "os_rename px src dst fs =
     (case fs src of
        None \<Rightarrow> Inl (FileNotFoundError src)
      | Some content \<Rightarrow>
          if fs dst \<noteq> None \<and> \<not> px then Inl (FileExistsError dst)
          else Inr ((fs(src := None))(dst \<mapsto> content)))"

section \<open>\<^verbatim>\<open>download_update\<close>\<close>

text \<open>Lines 59-60: an existing backup is removed.\<close>

definition remove_backup :: "path \<Rightarrow> filesystem \<Rightarrow> exn + filesystem" where
  "remove_backup backup_path fs =
     (if os_path_exists backup_path fs then os_remove backup_path fs else Inr fs)"

text \<open>
  Lines 58-62, the install step. The result is the exception raised, if any, and the
  file system as the step leaves it.
\<close>

definition install :: "bool \<Rightarrow> path \<Rightarrow> path \<Rightarrow> filesystem \<Rightarrow> exn option \<times> filesystem" where
  "install px script update_path fs =
     (let backup_path = script @ ''.bak'' in
      case remove_backup backup_path fs of
        Inl e \<Rightarrow> (Some e, fs)
      | Inr fs1 \<Rightarrow>
          (case os_rename px script backup_path fs1 of
             Inl e \<Rightarrow> (Some e, fs1)
           | Inr fs2 \<Rightarrow>
               (case os_rename px update_path script fs2 of
                  Inl e \<Rightarrow> (Some e, fs2)
                | Inr fs3 \<Rightarrow> (None, fs3))))"

text \<open>
  Lines 52-57, the loop over \<^verbatim>\<open>r.iter_content\<close>: \<open>f\<close> is what has been written to the
  open file, \<open>downloaded_size\<close> the running count. Empty chunks are skipped.
\<close>

fun write_chunks :: "int \<Rightarrow> bytes list \<Rightarrow> bytes \<Rightarrow> int \<Rightarrow> bytes \<times> event list" where
  "write_chunks file_size [] f downloaded_size = (f, [])"
| "write_chunks file_size (chunk # rest) f downloaded_size =
     (if chunk \<noteq> [] then
        (case write_chunks file_size rest (f @ chunk) (downloaded_size + int (length chunk)) of
           (g, evs) \<Rightarrow>
             (g, ProgressCallback (downloaded_size + int (length chunk)) file_size # evs))
      else write_chunks file_size rest f downloaded_size)"

text \<open>
  Lines 42-64, the body of the loop for the asset whose name matches. The result is the
  value returned or the exception raised, the file system and the events.
\<close>

definition download_asset ::
  "environment \<Rightarrow> filesystem \<Rightarrow> asset \<Rightarrow> (exn + bool) \<times> filesystem \<times> event list" where
  "download_asset env fs a =
     (let download_url = browser_download_url a;
          update_path = script_path env @ ''.new'';
          file_size = (case asset_size a of None \<Rightarrow> 0 | Some n \<Rightarrow> n)
      in if file_size = 0 then (Inl (Exception ''Failed to get file size.''), fs, [])
         else
           (let fs1 = fs(update_path \<mapsto> []);
                started = [ProgressCallback 0 file_size, HttpGet download_url]
            in case download_response env of
                 Inl e \<Rightarrow> (Inl e, fs1, started)
               | Inr (chunks, failure) \<Rightarrow>
                   (case write_chunks file_size chunks [] 0 of
                      (f, evs) \<Rightarrow>
                        (let fs2 = fs1(update_path \<mapsto> f) in
                         case failure of
                           Some e \<Rightarrow> (Inl e, fs2, started @ evs)
                         | None \<Rightarrow>
                             (case install (posix env) (script_path env) update_path fs2 of
                                (Some e, fs3) \<Rightarrow> (Inl e, fs3, started @ evs)
                              | (None, fs3) \<Rightarrow> (Inr True, fs3, started @ evs))))))"

text \<open>
  Lines 40-41 and 65-66: the loop over the assets, and what follows it. The string of
  line 66 has no \<^verbatim>\<open>f\<close> prefix, so the message holds the braces as they are written.
\<close>

fun for_assets ::
  "environment \<Rightarrow> filesystem \<Rightarrow> asset list \<Rightarrow> (exn + bool) \<times> filesystem \<times> event list" where
  "for_assets env fs [] =
     (Inl (Exception ''No matching asset found for version {latest_version}''), fs, [])"
| "for_assets env fs (a # rest) =
     (if asset_name a = Some ''SteamKM.exe'' then download_asset env fs a
      else for_assets env fs rest)"

definition release_url :: "string \<Rightarrow> string" where
  "release_url latest_version =
     ''https://api.github.com/repos/AbelSniffel/SteamKM/releases/tags/'' @ latest_version"

text \<open>
  Lines 33-72. Both handlers log and raise the exception again, so an exception leaves
  the function as it was raised.
\<close>

definition download_update ::
  "environment \<Rightarrow> string \<Rightarrow> filesystem \<Rightarrow> (exn + bool) \<times> filesystem \<times> event list" where
  "download_update env latest_version fs =
     (let request = HttpGet (Some (release_url latest_version)) in
      case release_response env of
        Inl e \<Rightarrow> (Inl e, fs, [request])
      | Inr json \<Rightarrow>
          (case for_assets env fs (case assets json of None \<Rightarrow> [] | Some as \<Rightarrow> as) of
             (r, fs', evs) \<Rightarrow> (r, fs', request # evs)))"

text \<open>The arguments of the calls of \<^verbatim>\<open>progress_callback\<close>, in order.\<close>

fun progress_calls :: "event list \<Rightarrow> (int \<times> int) list" where
  "progress_calls [] = []"
| "progress_calls (ProgressCallback d t # evs) = (d, t) # progress_calls evs"
| "progress_calls (HttpGet u # evs) = progress_calls evs"

section \<open>\<^verbatim>\<open>check_for_updates\<close> and \<^verbatim>\<open>UpdateCheckThread.run\<close>\<close>

text \<open>
  \<^verbatim>\<open>QMessageBox.critical(None, "Update Error", str(e))\<close>: the title and the exception
  whose text is shown.
\<close>

datatype ui_event = MessageBoxCritical string exn

text \<open>The tuple of the handler at line 28.\<close>

fun caught :: "exn \<Rightarrow> bool" where
  "caught (RequestException m) = True"
| "caught (InvalidVersion v) = True"
| "caught e = False"

text \<open>Line 25: \<^verbatim>\<open>response.json().get("tag_name", "0.0.0")\<close>.\<close>

definition latest_tag :: "release \<Rightarrow> string" where
  "latest_tag json = (case tag_name json of None \<Rightarrow> ''0.0.0'' | Some t \<Rightarrow> t)"

text \<open>
  Lines 20-31. \<^verbatim>\<open>packaging.version.parse\<close> and the order of the versions it returns
  are parameters: \<open>parse s = None\<close> when \<^verbatim>\<open>parse(s)\<close> raises
  \<^verbatim>\<open>InvalidVersion\<close>, and \<open>gt v w\<close> is \<^verbatim>\<open>v > w\<close>. \<open>CURRENT_BUILD\<close> is the constant
  of \<^verbatim>\<open>SteamKM_Version\<close>, \<open>response\<close> the outcome of lines 23-25 up to the decoded
  JSON. The result is the value returned (or the exception that leaves the function)
  and the message boxes shown.
\<close>

definition check_for_updates ::
  "(string \<Rightarrow> 'v option) \<Rightarrow> ('v \<Rightarrow> 'v \<Rightarrow> bool) \<Rightarrow> string \<Rightarrow> exn + release
     \<Rightarrow> (exn + string) \<times> ui_event list" where
  "check_for_updates parse gt CURRENT_BUILD response =
     (let handler = (\<lambda>e. if caught e
                          then (Inr CURRENT_BUILD, [MessageBoxCritical ''Update Error'' e])
                          else (Inl e, []))
      in case response of
           Inl e \<Rightarrow> handler e
         | Inr json \<Rightarrow>
             (let latest_version = latest_tag json in
              case parse latest_version of
                None \<Rightarrow> handler (InvalidVersion latest_version)
              | Some latest \<Rightarrow>
                  (case parse CURRENT_BUILD of
                     None \<Rightarrow> handler (InvalidVersion CURRENT_BUILD)
                   | Some current \<Rightarrow>
                       (Inr (if gt latest current then latest_version else CURRENT_BUILD), []))))"

text \<open>
  Lines 95-97. \<open>Inr available\<close> is the value emitted on the \<^verbatim>\<open>update_available\<close>
  signal; an exception of \<^verbatim>\<open>check_for_updates\<close> leaves \<^verbatim>\<open>run\<close> before it emits.
\<close>

definition UpdateCheckThread_run ::
  "(string \<Rightarrow> 'v option) \<Rightarrow> ('v \<Rightarrow> 'v \<Rightarrow> bool) \<Rightarrow> string \<Rightarrow> exn + release
     \<Rightarrow> (exn + bool) \<times> ui_event list" where
  "UpdateCheckThread_run parse gt CURRENT_BUILD response =
     (case check_for_updates parse gt CURRENT_BUILD response of
        (Inl e, shown) \<Rightarrow> (Inl e, shown)
      | (Inr version, shown) \<Rightarrow> (Inr (version \<noteq> CURRENT_BUILD), shown))"

section \<open>\<^verbatim>\<open>DownloadThread.update_progress\<close>\<close>

text \<open>
  Lines 117-122, over exact arithmetic: Python's floats are read as real numbers, and the
  two readings of the clock (\<open>start_time\<close>, set at line 111, and \<^verbatim>\<open>time()\<close> at line
  118) are inputs. \<open>start_time\<close> is falsy when it is \<^verbatim>\<open>None\<close> or \<open>0.0\<close>.
\<close>

definition elapsed_time :: "real option \<Rightarrow> real \<Rightarrow> real" where
  "elapsed_time start_time now =
     (case start_time of None \<Rightarrow> 0 | Some s \<Rightarrow> if s \<noteq> 0 then now - s else 0)"

definition download_speed :: "int \<Rightarrow> real \<Rightarrow> real" where
  "download_speed downloaded elapsed =
     (if elapsed > 0 \<and> downloaded > 0 then real_of_int downloaded / elapsed else 0)"

definition estimated_time :: "int \<Rightarrow> int \<Rightarrow> real \<Rightarrow> real" where
  "estimated_time downloaded total_size speed =
     (let remaining_bytes = total_size - downloaded in
      if speed > 0 then real_of_int remaining_bytes / speed else 0)"

text \<open>The result is the triple emitted on \<^verbatim>\<open>progress_signal\<close>.\<close>

definition update_progress :: "real option \<Rightarrow> real \<Rightarrow> int \<Rightarrow> int \<Rightarrow> int \<times> int \<times> real" where
  "update_progress start_time now downloaded total_size =
     (let elapsed = elapsed_time start_time now;
          speed = download_speed downloaded elapsed
      in (downloaded, total_size, estimated_time downloaded total_size speed))"

section \<open>\<^verbatim>\<open>load_config\<close>\<close>

text \<open>The values \<^verbatim>\<open>json.loads\<close> returns; \<open>JObject []\<close> is the empty dictionary.\<close>

datatype json =
    JNull
  | JBool bool
  | JInt int
  | JFloat real
  | JString string
  | JArray "json list"
  | JObject "(string \<times> json) list"

text \<open>
  The exceptions that \<^verbatim>\<open>read_text()\<close> and \<^verbatim>\<open>json.loads\<close> raise.
  \<^verbatim>\<open>UnicodeDecodeError\<close> is raised for a file whose bytes are not text in the
  encoding, \<^verbatim>\<open>OSError\<close> for a file that cannot be read, \<^verbatim>\<open>RecursionError\<close> for a
  document nested too deeply and \<^verbatim>\<open>ValueError\<close> for an integer literal with too many
  digits. \<^verbatim>\<open>JSONDecodeError\<close> is a subclass of \<^verbatim>\<open>ValueError\<close>; a handler for it
  catches none of the others.
\<close>

datatype config_exn =
    JSONDecodeError string
  | UnicodeDecodeError string
  | RecursionError string
  | ValueError string
  | OSError string

text \<open>
  Line 11, the handler around line 10: a \<^verbatim>\<open>JSONDecodeError\<close> becomes the empty
  dictionary, every other outcome is kept.
\<close>

fun except_JSONDecodeError :: "config_exn + json \<Rightarrow> config_exn + json" where
  "except_JSONDecodeError (Inl (JSONDecodeError m)) = Inr (JObject [])"
| "except_JSONDecodeError (Inl e) = Inl e"
| "except_JSONDecodeError (Inr v) = Inr v"

text \<open>
  Lines 7-13 of \<^verbatim>\<open>SteamKM_Config.py\<close>. \<open>file\<close> is \<open>None\<close> when
  \<^verbatim>\<open>CONFIG_FILE_PATH.exists()\<close> is false and otherwise the outcome of
  \<^verbatim>\<open>CONFIG_FILE_PATH.read_text()\<close>, an exception or the text of the file;
  \<open>json_loads text\<close> is the outcome of \<^verbatim>\<open>json.loads(text)\<close>, an exception or the
  decoded value. The result is the value returned or the exception that leaves the
  function.
\<close>

definition load_config ::
  "(string \<Rightarrow> config_exn + json) \<Rightarrow> (config_exn + string) option \<Rightarrow> config_exn + json" where
  "load_config json_loads file =
     (case file of
        Some read_text \<Rightarrow>
          except_JSONDecodeError
            (case read_text of Inl e \<Rightarrow> Inl e | Inr text \<Rightarrow> json_loads text)
      | None \<Rightarrow> Inr (JObject []))"

section \<open>The Version Comparator\<close>

text \<open>
  Modelled from the spec: the Version Comparator. The source files only call it
  (\<^verbatim>\<open>parse(latest_version) > parse(CURRENT_BUILD)\<close>, line 27); its code is the
  \<^verbatim>\<open>packaging\<close> library, which is not among them. The spec gives a version as a string
  such as \<^verbatim>\<open>1.4.2\<close>, a parser that fails with a \<^verbatim>\<open>ParseError\<close> on a string outside
  the version grammar, and an order that compares numeric segments. The grammar taken
  here is one or more non-empty runs of decimal digits separated by single dots; a
  segment missing in the shorter of two versions counts as 0 (\<^verbatim>\<open>1.0\<close> equals
  \<^verbatim>\<open>1.0.0\<close>), which is what the library does by dropping trailing zeros before it
  compares the segments as tuples. The library accepts more strings than this grammar
  (a leading \<^verbatim>\<open>v\<close>, epochs, pre-release, post-release and local parts); the spec does
  not describe them, and \<open>parse_version\<close> reports them as outside the grammar.
\<close>

definition digit_value :: "char \<Rightarrow> nat option" where
  "digit_value c =
     (let n = (of_char c :: nat) in if 48 \<le> n \<and> n \<le> 57 then Some (n - 48) else None)"

fun segment_value :: "nat \<Rightarrow> string \<Rightarrow> nat option" where
  "segment_value acc [] = Some acc"
| "segment_value acc (c # cs) =
     (case digit_value c of None \<Rightarrow> None | Some d \<Rightarrow> segment_value (10 * acc + d) cs)"

fun split_dots :: "string \<Rightarrow> string \<Rightarrow> string list" where
  "split_dots seg [] = [rev seg]"
| "split_dots seg (c # cs) =
     (if c = CHR ''.'' then rev seg # split_dots [] cs else split_dots (c # seg) cs)"

fun parse_segments :: "string list \<Rightarrow> nat list option" where
  "parse_segments [] = Some []"
| "parse_segments (s # ss) =
     (if s = [] then None
      else case segment_value 0 s of
             None \<Rightarrow> None
           | Some n \<Rightarrow> (case parse_segments ss of None \<Rightarrow> None | Some ns \<Rightarrow> Some (n # ns)))"

definition parse_version :: "string \<Rightarrow> nat list option" where
  "parse_version s = parse_segments (split_dots [] s)"

text \<open>The comparison key: the segments without their trailing zeros.\<close>

definition cmpkey :: "nat list \<Rightarrow> nat list" where
  "cmpkey release = rev (dropWhile (\<lambda>n. n = 0) (rev release))"

text \<open>Python's order of tuples of integers.\<close>

fun tuple_less :: "nat list \<Rightarrow> nat list \<Rightarrow> bool" where
  "tuple_less [] [] = False"
| "tuple_less [] (y # ys) = True"
| "tuple_less (x # xs) [] = False"
| "tuple_less (x # xs) (y # ys) = (x < y \<or> (x = y \<and> tuple_less xs ys))"

definition version_gt :: "nat list \<Rightarrow> nat list \<Rightarrow> bool" where
  "version_gt v w = tuple_less (cmpkey w) (cmpkey v)"

datatype ordering = Less | Equal | Greater

definition compare :: "string \<Rightarrow> string \<Rightarrow> exn + ordering" where
  "compare a b =
     (case parse_version a of
        None \<Rightarrow> Inl (InvalidVersion a)
      | Some v \<Rightarrow>
          (case parse_version b of
             None \<Rightarrow> Inl (InvalidVersion b)
           | Some w \<Rightarrow>
               Inr (if version_gt w v then Less else if version_gt v w then Greater else Equal)))"

section \<open>Example inputs\<close>

text \<open>
  A file system with the running binary, a staged update and an older backup; a release
  with two assets; and a run in which the 5 bytes of the asset arrive in two chunks.
\<close>

definition example_fs :: filesystem where
  "example_fs =
     map_of [(''C:/SteamKM.exe'', [1, 2]), (''C:/SteamKM.exe.new'', [3, 4, 5]),
             (''C:/SteamKM.exe.bak'', [0])]"

definition notes_asset :: asset where
  "notes_asset =
     \<lparr>asset_name = Some ''notes.txt'',
      browser_download_url = Some ''https://example.org/notes.txt'',
      asset_size = Some 12\<rparr>"

definition exe_asset :: "int \<Rightarrow> asset" where
  "exe_asset n =
     \<lparr>asset_name = Some ''SteamKM.exe'',
      browser_download_url = Some ''https://example.org/SteamKM.exe'',
      asset_size = Some n\<rparr>"

definition example_release :: "asset list \<Rightarrow> release" where
  "example_release as = \<lparr>tag_name = Some ''1.3.0'', assets = Some as\<rparr>"

definition example_env :: "asset list \<Rightarrow> bytes list \<Rightarrow> environment" where
  "example_env as chunks =
     \<lparr>posix = False, script_path = ''C:/SteamKM.exe'',
      release_response = Inr (example_release as),
      download_response = Inr (chunks, None)\<rparr>"

text \<open>A JSON decoder that knows one document and rejects every other text.\<close>

definition example_json_loads :: "string \<Rightarrow> config_exn + json" where
  "example_json_loads text =
     (if text = ''[1]'' then Inr (JArray [JInt 1]) else Inl (JSONDecodeError ''Expecting value''))"

section \<open>Facts about the loops of \<^verbatim>\<open>download_update\<close>\<close>

text \<open>The loop over the assets stops at the first asset named \<^verbatim>\<open>SteamKM.exe\<close>.\<close>

lemma for_assets_first_match:
  assumes "\<forall>x\<in>set pre. asset_name x \<noteq> Some ''SteamKM.exe''"
    and "asset_name a = Some ''SteamKM.exe''"
  shows "for_assets env fs (pre @ a # post) = download_asset env fs a"
  using assms by (induction pre) simp_all

lemma for_assets_no_match:
  assumes "\<forall>x\<in>set as. asset_name x \<noteq> Some ''SteamKM.exe''"
  shows "for_assets env fs as =
     (Inl (Exception ''No matching asset found for version {latest_version}''), fs, [])"
  using assms by (induction as) simp_all

text \<open>
  The loop over the chunks: what it writes, and the calls it makes. Every call lies
  above the count the loop started from, the counts increase, and the last one is the
  sum of the chunk sizes.
\<close>

lemma write_chunks_content: "fst (write_chunks t cs f d) = f @ concat cs"
  by (induction cs arbitrary: f d) (simp_all add: split_beta)

lemma write_chunks_calls_above:
  "(x, y) \<in> set (progress_calls (snd (write_chunks t cs f d))) \<Longrightarrow> d < x \<and> y = t"
proof (induction cs arbitrary: f d)
  case Nil
  then show ?case by simp
next
  case (Cons c cs)
  show ?case
  proof (cases "c = []")
    case True
    with Cons show ?thesis by simp
  next
    case False
    obtain g evs where w: "write_chunks t cs (f @ c) (d + int (length c)) = (g, evs)"
      by (cases "write_chunks t cs (f @ c) (d + int (length c))")
    from False have pos: "0 < int (length c)" by simp
    from Cons.prems False w
    have "(x, y) = (d + int (length c), t) \<or> (x, y) \<in> set (progress_calls evs)"
      by simp
    then show ?thesis
    proof
      assume "(x, y) = (d + int (length c), t)"
      with pos show ?thesis by simp
    next
      assume "(x, y) \<in> set (progress_calls evs)"
      with w have "(x, y) \<in> set (progress_calls (snd (write_chunks t cs (f @ c) (d + int (length c)))))"
        by simp
      from Cons.IH [OF this] pos show ?thesis by simp
    qed
  qed
qed

lemma write_chunks_increasing:
  "sorted_wrt (<) (map fst (progress_calls (snd (write_chunks t cs f d))))"
proof (induction cs arbitrary: f d)
  case Nil
  then show ?case by simp
next
  case (Cons c cs)
  show ?case
  proof (cases "c = []")
    case True
    with Cons show ?thesis by simp
  next
    case False
    obtain g evs where w: "write_chunks t cs (f @ c) (d + int (length c)) = (g, evs)"
      by (cases "write_chunks t cs (f @ c) (d + int (length c))")
    have above: "\<forall>p\<in>set (progress_calls evs). d + int (length c) < fst p"
    proof
      fix p assume "p \<in> set (progress_calls evs)"
      with w have "(fst p, snd p) \<in> set (progress_calls (snd (write_chunks t cs (f @ c) (d + int (length c)))))"
        by simp
      from write_chunks_calls_above [OF this] show "d + int (length c) < fst p" by simp
    qed
    from Cons.IH [of "f @ c" "d + int (length c)"] w
    have "sorted_wrt (<) (map fst (progress_calls evs))" by simp
    with above False w show ?thesis by simp
  qed
qed

lemma write_chunks_last:
  "last ((d, t) # progress_calls (snd (write_chunks t cs f d))) =
     (d + int (sum_list (map length cs)), t)"
proof (induction cs arbitrary: f d)
  case Nil
  then show ?case by simp
next
  case (Cons c cs)
  show ?case
  proof (cases "c = []")
    case True
    with Cons show ?thesis by simp
  next
    case False
    obtain g evs where w: "write_chunks t cs (f @ c) (d + int (length c)) = (g, evs)"
      by (cases "write_chunks t cs (f @ c) (d + int (length c))")
    from Cons.IH [of "d + int (length c)" "f @ c"] w
    have "last ((d + int (length c), t) # progress_calls evs) =
            (d + int (length c) + int (sum_list (map length cs)), t)" by simp
    with False w show ?thesis by (simp add: add.assoc)
  qed
qed

text \<open>No call of the progress callback carries a negative count.\<close>

lemma download_asset_calls_nonneg:
  assumes "(d, t) \<in> set (progress_calls (snd (snd (download_asset env fs a))))"
  shows "0 \<le> d"
  using assms
  by (auto simp add: download_asset_def Let_def split_beta
      split: if_splits sum.splits option.splits dest!: write_chunks_calls_above)

lemma for_assets_calls_nonneg:
  "(d, t) \<in> set (progress_calls (snd (snd (for_assets env fs as)))) \<Longrightarrow> 0 \<le> d"
  by (induction as) (auto dest: download_asset_calls_nonneg split: if_splits)

lemma progress_calls_nonneg:
  "(d, t) \<in> set (progress_calls (snd (snd (download_update env latest_version fs)))) \<Longrightarrow> 0 \<le> d"
  by (auto simp add: download_update_def Let_def split_beta split: sum.splits
      dest: for_assets_calls_nonneg)

text \<open>
  The loop over the chunks records nothing but calls of the progress callback, and a
  download whose stream ends normally records the first call, the request for the asset
  and then the events of the loop, in this order.
\<close>

lemma write_chunks_only_progress:
  "snd (write_chunks t cs f d) =
     map (\<lambda>(x, y). ProgressCallback x y) (progress_calls (snd (write_chunks t cs f d)))"
  by (induction cs arbitrary: f d) (simp_all add: split_beta)

lemma download_asset_events:
  assumes "asset_size a = Some n" and "n \<noteq> 0"
    and "download_response env = Inr (chunks, None)"
  shows "snd (snd (download_asset env fs a)) =
           ProgressCallback 0 n # HttpGet (browser_download_url a) #
             snd (write_chunks n chunks [] 0)"
  using assms
  by (simp add: download_asset_def Let_def split_beta split: option.splits)

text \<open>Chunks of one size \<open>n\<close> give one call per chunk, at the multiples of \<open>n\<close>.\<close>

lemma write_chunks_uniform:
  assumes "\<forall>c\<in>set cs. length c = n" and "0 < n"
  shows "progress_calls (snd (write_chunks t cs f d)) =
           map (\<lambda>i. (d + int n * int (Suc i), t)) [0..<length cs]"
  using assms(1)
proof (induction cs arbitrary: f d)
  case Nil
  then show ?case by simp
next
  case (Cons c cs)
  from Cons.prems have len: "length c = n" and rest: "\<forall>c\<in>set cs. length c = n" by simp_all
  from len assms(2) have ne: "c \<noteq> []" by auto
  have "progress_calls (snd (write_chunks t cs (f @ c) (d + int n))) =
          map (\<lambda>i. (d + int n + int n * int (Suc i), t)) [0..<length cs]"
    by (rule Cons.IH [OF rest])
  also have "\<dots> = map (\<lambda>i. (d + int n * int (Suc (Suc i)), t)) [0..<length cs]"
    by (simp add: algebra_simps)
  finally have tl: "progress_calls (snd (write_chunks t cs (f @ c) (d + int n))) =
          map (\<lambda>i. (d + int n * int (Suc (Suc i)), t)) [0..<length cs]" .
  have "progress_calls (snd (write_chunks t (c # cs) f d)) =
          (d + int n, t) # progress_calls (snd (write_chunks t cs (f @ c) (d + int n)))"
    using ne len by (simp add: split_beta)
  also have "\<dots> = map (\<lambda>i. (d + int n * int (Suc i), t)) [0..<length (c # cs)]"
    by (simp add: tl map_upt_Suc del: upt_Suc)
  finally show ?case .
qed

section \<open>The install step\<close>

text \<open>The file system that the install step leaves, in closed form.\<close>

lemma install_ok:
  assumes "fs script = Some R" and "fs (script @ ''.new'') = Some N"
  shows "install px script (script @ ''.new'') fs =
           (None, fs(script @ ''.new'' := None, script @ ''.bak'' \<mapsto> R, script \<mapsto> N))"
  using assms
  by (auto simp add: install_def remove_backup_def os_path_exists_def os_remove_def
      os_rename_def Let_def fun_eq_iff)

text \<open>
  A download that runs to its end installs what it received: the running path holds the
  concatenation of the chunks and the \<open>.bak\<close> path holds the binary that was running.
\<close>

lemma download_update_installs:
  assumes "release_response env = Inr rel"
    and "assets rel = Some (pre @ a # post)"
    and "\<forall>x\<in>set pre. asset_name x \<noteq> Some ''SteamKM.exe''"
    and "asset_name a = Some ''SteamKM.exe''"
    and "asset_size a = Some n" and "n \<noteq> 0"
    and "download_response env = Inr (chunks, None)"
    and "fs (script_path env) = Some R"
  shows "fst (download_update env latest_version fs) = Inr True \<and>
         fst (snd (download_update env latest_version fs)) =
           fs(script_path env @ ''.new'' := None, script_path env @ ''.bak'' \<mapsto> R,
              script_path env \<mapsto> concat chunks)"
proof -
  let ?new = "script_path env @ ''.new''"
  let ?fs2 = "fs(?new \<mapsto> concat chunks)"
  have w: "write_chunks n chunks [] 0 = (concat chunks, snd (write_chunks n chunks [] 0))"
    using write_chunks_content [of n chunks "[]" 0]
    by (cases "write_chunks n chunks [] 0") simp
  have "install (posix env) (script_path env) ?new ?fs2 =
          (None, ?fs2(?new := None, script_path env @ ''.bak'' \<mapsto> R,
                      script_path env \<mapsto> concat chunks))"
    using assms(8) by (intro install_ok) simp_all
  then have i: "install (posix env) (script_path env) ?new ?fs2 =
          (None, fs(?new := None, script_path env @ ''.bak'' \<mapsto> R,
                    script_path env \<mapsto> concat chunks))"
    by simp
  have "download_asset env fs a =
          (Inr True, fs(?new := None, script_path env @ ''.bak'' \<mapsto> R,
                        script_path env \<mapsto> concat chunks),
           [ProgressCallback 0 n, HttpGet (browser_download_url a)] @
             snd (write_chunks n chunks [] 0))"
    unfolding download_asset_def Let_def using assms(5,6,7)
    by (simp add: i) (subst w, simp add: i)
  with assms(1-4) show ?thesis
    by (simp add: download_update_def for_assets_first_match)
qed

text \<open>
  Claim C1. Whenever the running binary holds \<open>R\<close> and the staged \<open>.new\<close> file holds
  \<open>N\<close>, the install step raises nothing, and afterwards \<open>R\<close> is the content of the
  \<open>.bak\<close> path, \<open>N\<close> the content of the running path, the \<open>.new\<close> path is gone and
  every other path is as before. Lines 59-60 leave no file at the \<open>.bak\<close> path,
  whether or not one was there, so the rename that follows finds the path free: the
  statement holds for both behaviours of \<^verbatim>\<open>os.rename\<close>, also the one that refuses an
  existing destination. The file system holds one content per path, so the backup that
  the step leaves is the only one.
\<close>

theorem install_round_trip:
  assumes "fs script = Some R" and "fs (script @ ''.new'') = Some N"
  shows "remove_backup (script @ ''.bak'') fs = Inr (fs(script @ ''.bak'' := None)) \<and>
         fst (install px script (script @ ''.new'') fs) = None \<and>
         snd (install px script (script @ ''.new'') fs) (script @ ''.bak'') = Some R \<and>
         snd (install px script (script @ ''.new'') fs) script = Some N \<and>
         snd (install px script (script @ ''.new'') fs) (script @ ''.new'') = None \<and>
         (\<forall>p. p \<noteq> script \<and> p \<noteq> script @ ''.bak'' \<and> p \<noteq> script @ ''.new'' \<longrightarrow>
              snd (install px script (script @ ''.new'') fs) p = fs p)"
proof -
  let ?bak = "script @ ''.bak''" and ?new = "script @ ''.new''"
  have rm: "remove_backup ?bak fs = Inr (fs(?bak := None))"
    by (auto simp add: remove_backup_def os_path_exists_def os_remove_def)
  have "install px script ?new fs = (None, fs(?new := None, ?bak \<mapsto> R, script \<mapsto> N))"
    using assms by (rule install_ok)
  with rm show ?thesis by simp
qed

theorem install_round_trip_witness:
  "example_fs ''C:/SteamKM.exe'' = Some [1, 2] \<and>
   example_fs (''C:/SteamKM.exe'' @ ''.new'') = Some [3, 4, 5] \<and>
   example_fs (''C:/SteamKM.exe'' @ ''.bak'') = Some [0] \<and>
   fst (install False ''C:/SteamKM.exe'' (''C:/SteamKM.exe'' @ ''.new'') example_fs) = None \<and>
   snd (install False ''C:/SteamKM.exe'' (''C:/SteamKM.exe'' @ ''.new'') example_fs)
     (''C:/SteamKM.exe'' @ ''.bak'') = Some [1, 2] \<and>
   snd (install False ''C:/SteamKM.exe'' (''C:/SteamKM.exe'' @ ''.new'') example_fs)
     ''C:/SteamKM.exe'' = Some [3, 4, 5] \<and>
   snd (install False ''C:/SteamKM.exe'' (''C:/SteamKM.exe'' @ ''.new'') example_fs)
     (''C:/SteamKM.exe'' @ ''.new'') = None"
proof -
  have h1: "example_fs ''C:/SteamKM.exe'' = Some [1, 2]"
    by (simp add: example_fs_def)
  have h2: "example_fs (''C:/SteamKM.exe'' @ ''.new'') = Some [3, 4, 5]"
    by (simp add: example_fs_def)
  have h3: "example_fs (''C:/SteamKM.exe'' @ ''.bak'') = Some [0]"
    by (simp add: example_fs_def)
  from install_round_trip [OF h1 h2, of False] h1 h2 h3 show ?thesis by blast
qed

section \<open>Progress of a download\<close>

text \<open>
  Claim C2. Let the release be fetched, let its first asset named \<^verbatim>\<open>SteamKM.exe\<close>
  report \<open>total_size\<close>, and let the stream end normally after chunks whose sizes sum to
  \<open>total_size\<close>. Then the bytes-so-far values of the calls of the progress callback
  never decrease from call to call (they even increase strictly), every call carries
  \<open>total_size\<close> as its total, and the last call reports \<open>(total_size, total_size)\<close>.
  The chunks need not all be non-empty, since the loop skips an empty chunk without a
  call. Chunks that sum to 0 are the one case without a last call: the worker then
  refuses the asset at line 47, before its first call.
\<close>

theorem progress_reaches_total:
  assumes "release_response env = Inr rel"
    and "assets rel = Some (pre @ a # post)"
    and "\<forall>x\<in>set pre. asset_name x \<noteq> Some ''SteamKM.exe''"
    and "asset_name a = Some ''SteamKM.exe''"
    and "asset_size a = Some total_size"
    and "download_response env = Inr (chunks, None)"
    and "int (sum_list (map length chunks)) = total_size"
  shows "let ps = progress_calls (snd (snd (download_update env latest_version fs))) in
           sorted (map fst ps) \<and>
           sorted_wrt (<) (map fst ps) \<and>
           (\<forall>p\<in>set ps. snd p = total_size) \<and>
           (total_size \<noteq> 0 \<longrightarrow> ps \<noteq> [] \<and> last ps = (total_size, total_size)) \<and>
           (total_size = 0 \<longrightarrow> ps = [])"
proof (cases "total_size = 0")
  case True
  with assms(1-5) have "download_update env latest_version fs =
      (Inl (Exception ''Failed to get file size.''), fs,
       [HttpGet (Some (release_url latest_version))])"
    by (simp add: download_update_def for_assets_first_match download_asset_def)
  with True show ?thesis by simp
next
  case False
  let ?w = "write_chunks total_size chunks [] 0"
  let ?ps = "progress_calls (snd ?w)"
  have calls: "progress_calls (snd (snd (download_update env latest_version fs))) =
                 (0, total_size) # ?ps"
    using assms(1-6) False
    by (simp add: download_update_def for_assets_first_match download_asset_def Let_def
        split_beta split: option.splits)
  have above: "\<forall>p\<in>set ?ps. 0 < fst p \<and> snd p = total_size"
  proof
    fix p assume "p \<in> set ?ps"
    then have "(fst p, snd p) \<in> set ?ps" by simp
    from write_chunks_calls_above [OF this] show "0 < fst p \<and> snd p = total_size" .
  qed
  have incr: "sorted_wrt (<) (map fst ((0, total_size) # ?ps))"
    using above write_chunks_increasing [of total_size chunks "[]" 0] by simp
  have "last ((0, total_size) # ?ps) = (0 + int (sum_list (map length chunks)), total_size)"
    by (rule write_chunks_last)
  with assms(7) have lst: "last ((0, total_size) # ?ps) = (total_size, total_size)" by simp
  from incr have nondecr: "sorted (map fst ((0, total_size) # ?ps))"
    by (rule strict_sorted_imp_sorted)
  from calls above incr nondecr lst False show ?thesis by (simp add: Let_def)
qed

theorem progress_reaches_total_witness:
  "sorted_wrt (<) (map fst (progress_calls (snd (snd (download_update
      (example_env [notes_asset, exe_asset 5] [[1, 2], [3, 4, 5]]) ''1.3.0'' example_fs))))) \<and>
   last (progress_calls (snd (snd (download_update
      (example_env [notes_asset, exe_asset 5] [[1, 2], [3, 4, 5]]) ''1.3.0'' example_fs)))) =
     (5, 5)"
proof -
  let ?env = "example_env [notes_asset, exe_asset 5] [[1, 2], [3, 4, 5]]"
  have h1: "release_response ?env = Inr (example_release [notes_asset, exe_asset 5])"
    by (simp add: example_env_def)
  have h2: "assets (example_release [notes_asset, exe_asset 5]) =
              Some ([notes_asset] @ exe_asset 5 # [])"
    by (simp add: example_release_def)
  have h3: "\<forall>x\<in>set [notes_asset]. asset_name x \<noteq> Some ''SteamKM.exe''"
    by (simp add: notes_asset_def)
  have h4: "asset_name (exe_asset 5) = Some ''SteamKM.exe''"
    by (simp add: exe_asset_def)
  have h5: "asset_size (exe_asset 5) = Some 5"
    by (simp add: exe_asset_def)
  have h6: "download_response ?env = Inr ([[1, 2], [3, 4, 5]], None)"
    by (simp add: example_env_def)
  have h7: "int (sum_list (map length [[1, 2], [3, 4, 5::byte]])) = 5"
    by simp
  from progress_reaches_total [OF h1 h2 h3 h4 h5 h6 h7, of "''1.3.0''" example_fs]
  show ?thesis by (simp add: Let_def)
qed

text \<open>
  Claim C3, as amended. When the asset reports 1000 bytes and arrives in 10 chunks of
  100 bytes, the progress callback is called 11 times: once with \<open>(0, 1000)\<close> at line
  48, after the request for the release and before the request for the asset that opens
  the stream, and once after each of the 10 chunks, with the counts 100, 200 and so on.
  The last call carries \<open>(1000, 1000)\<close>. The first conjunct gives every event of the run
  in the order it happens.
\<close>

theorem eleven_progress_calls:
  assumes "release_response env = Inr rel"
    and "assets rel = Some (pre @ a # post)"
    and "\<forall>x\<in>set pre. asset_name x \<noteq> Some ''SteamKM.exe''"
    and "asset_name a = Some ''SteamKM.exe''"
    and "asset_size a = Some 1000"
    and "download_response env = Inr (chunks, None)"
    and "length chunks = 10"
    and "\<forall>c\<in>set chunks. length c = 100"
  shows "snd (snd (download_update env latest_version fs)) =
           [HttpGet (Some (release_url latest_version)),
            ProgressCallback 0 1000,
            HttpGet (browser_download_url a),
            ProgressCallback 100 1000, ProgressCallback 200 1000, ProgressCallback 300 1000,
            ProgressCallback 400 1000, ProgressCallback 500 1000, ProgressCallback 600 1000,
            ProgressCallback 700 1000, ProgressCallback 800 1000, ProgressCallback 900 1000,
            ProgressCallback 1000 1000] \<and>
         progress_calls (snd (snd (download_update env latest_version fs))) =
           [(0, 1000), (100, 1000), (200, 1000), (300, 1000), (400, 1000), (500, 1000),
            (600, 1000), (700, 1000), (800, 1000), (900, 1000), (1000, 1000)] \<and>
         length (progress_calls (snd (snd (download_update env latest_version fs)))) = 11 \<and>
         last (progress_calls (snd (snd (download_update env latest_version fs)))) =
           (1000, 1000)"
proof -
  have "progress_calls (snd (write_chunks 1000 chunks [] 0)) =
          map (\<lambda>i. (0 + int 100 * int (Suc i), 1000)) [0..<length chunks]"
    using assms(8) by (intro write_chunks_uniform) simp_all
  also have "\<dots> = [(100, 1000), (200, 1000), (300, 1000), (400, 1000), (500, 1000),
            (600, 1000), (700, 1000), (800, 1000), (900, 1000), (1000, 1000)]"
    unfolding assms(7) by (simp add: upt_rec)
  finally have calls: "progress_calls (snd (write_chunks 1000 chunks [] 0)) =
      [(100, 1000), (200, 1000), (300, 1000), (400, 1000), (500, 1000),
       (600, 1000), (700, 1000), (800, 1000), (900, 1000), (1000, 1000)]" .
  have evs: "snd (write_chunks 1000 chunks [] 0) =
      [ProgressCallback 100 1000, ProgressCallback 200 1000, ProgressCallback 300 1000,
       ProgressCallback 400 1000, ProgressCallback 500 1000, ProgressCallback 600 1000,
       ProgressCallback 700 1000, ProgressCallback 800 1000, ProgressCallback 900 1000,
       ProgressCallback 1000 1000]"
    by (subst write_chunks_only_progress) (simp add: calls)
  have "snd (snd (download_asset env fs a)) =
          ProgressCallback 0 1000 # HttpGet (browser_download_url a) #
            snd (write_chunks 1000 chunks [] 0)"
    using assms(5,6) by (intro download_asset_events) simp_all
  with assms(1-4) have "snd (snd (download_update env latest_version fs)) =
          HttpGet (Some (release_url latest_version)) # ProgressCallback 0 1000 #
            HttpGet (browser_download_url a) # snd (write_chunks 1000 chunks [] 0)"
    by (simp add: download_update_def for_assets_first_match split_beta)
  then show ?thesis by (simp add: evs)
qed

theorem eleven_progress_calls_witness:
  "snd (snd (download_update
      (example_env [exe_asset 1000] (replicate 10 (replicate 100 7))) ''1.3.0'' example_fs)) =
     [HttpGet (Some ''https://api.github.com/repos/AbelSniffel/SteamKM/releases/tags/1.3.0''),
      ProgressCallback 0 1000,
      HttpGet (Some ''https://example.org/SteamKM.exe''),
      ProgressCallback 100 1000, ProgressCallback 200 1000, ProgressCallback 300 1000,
      ProgressCallback 400 1000, ProgressCallback 500 1000, ProgressCallback 600 1000,
      ProgressCallback 700 1000, ProgressCallback 800 1000, ProgressCallback 900 1000,
      ProgressCallback 1000 1000] \<and>
   length (progress_calls (snd (snd (download_update
      (example_env [exe_asset 1000] (replicate 10 (replicate 100 7))) ''1.3.0''
      example_fs)))) = 11 \<and>
   last (progress_calls (snd (snd (download_update
      (example_env [exe_asset 1000] (replicate 10 (replicate 100 7))) ''1.3.0''
      example_fs)))) = (1000, 1000)"
proof -
  let ?env = "example_env [exe_asset 1000] (replicate 10 (replicate 100 7))"
  have h1: "release_response ?env = Inr (example_release [exe_asset 1000])"
    by (simp add: example_env_def)
  have h2: "assets (example_release [exe_asset 1000]) = Some ([] @ exe_asset 1000 # [])"
    by (simp add: example_release_def)
  have h3: "\<forall>x\<in>set []. asset_name x \<noteq> Some ''SteamKM.exe''"
    by simp
  have h4: "asset_name (exe_asset 1000) = Some ''SteamKM.exe''"
    by (simp add: exe_asset_def)
  have h5: "asset_size (exe_asset 1000) = Some 1000"
    by (simp add: exe_asset_def)
  have h6: "download_response ?env = Inr (replicate 10 (replicate 100 7), None)"
    by (simp add: example_env_def)
  have h7: "length (replicate 10 (replicate 100 (7::byte))) = 10"
    by simp
  have h8: "\<forall>c\<in>set (replicate 10 (replicate 100 (7::byte))). length c = 100"
    by simp
  have u: "browser_download_url (exe_asset 1000) = Some ''https://example.org/SteamKM.exe''"
    by (simp add: exe_asset_def)
  from eleven_progress_calls [OF h1 h2 h3 h4 h5 h6 h7 h8, of "''1.3.0''" example_fs]
  show ?thesis by (simp add: u release_url_def)
qed

text \<open>
  The claim C3 as the spec has it, 10 calls, fails on a 1000-byte asset that arrives in
  10 chunks of 100 bytes.
\<close>

theorem ten_progress_calls_counterexample:
  "length (progress_calls (snd (snd (download_update
      \<lparr>posix = False, script_path = ''C:/SteamKM.exe'',
        release_response = Inr \<lparr>tag_name = Some ''1.3.0'', assets = Some
          [\<lparr>asset_name = Some ''SteamKM.exe'',
            browser_download_url = Some ''https://example.org/SteamKM.exe'',
            asset_size = Some 1000\<rparr>]\<rparr>,
        download_response = Inr (replicate 10 (replicate 100 0), None)\<rparr>
      ''1.3.0'' (map_of [(''C:/SteamKM.exe'', [1, 2])]))))) \<noteq> 10"
  by code_simp

section \<open>Assets that cannot be downloaded\<close>

text \<open>
  Claim C4. When the release is fetched and none of its assets is named
  \<^verbatim>\<open>SteamKM.exe\<close> (also when the release has no asset list at all), the download fails
  with the exception of line 66, which is the failure the spec calls
  \<^verbatim>\<open>AssetNotFoundError\<close>. The file system is as it was, so no \<open>.new\<close> file has been
  created, and the request for the release is the only event.
\<close>

theorem no_matching_asset:
  assumes "release_response env = Inr rel"
    and "\<forall>x\<in>set (case assets rel of None \<Rightarrow> [] | Some as \<Rightarrow> as).
           asset_name x \<noteq> Some ''SteamKM.exe''"
  shows "download_update env latest_version fs =
           (Inl (Exception ''No matching asset found for version {latest_version}''), fs,
            [HttpGet (Some (release_url latest_version))])"
  using assms by (simp add: download_update_def for_assets_no_match)

theorem no_matching_asset_witness:
  "fst (download_update (example_env [notes_asset] [[1, 2], [3, 4, 5]]) ''1.3.0'' example_fs) =
     Inl (Exception ''No matching asset found for version {latest_version}'') \<and>
   fst (snd (download_update (example_env [notes_asset] [[1, 2], [3, 4, 5]]) ''1.3.0''
     example_fs)) = example_fs \<and>
   snd (snd (download_update (example_env [notes_asset] [[1, 2], [3, 4, 5]]) ''1.3.0''
     example_fs)) =
     [HttpGet (Some ''https://api.github.com/repos/AbelSniffel/SteamKM/releases/tags/1.3.0'')]"
proof -
  let ?env = "example_env [notes_asset] [[1, 2], [3, 4, 5]]"
  have h1: "release_response ?env = Inr (example_release [notes_asset])"
    by (simp add: example_env_def)
  have h2: "\<forall>x\<in>set (case assets (example_release [notes_asset]) of None \<Rightarrow> [] | Some as \<Rightarrow> as).
              asset_name x \<noteq> Some ''SteamKM.exe''"
    by (simp add: example_release_def notes_asset_def)
  from no_matching_asset [OF h1 h2, of "''1.3.0''" example_fs]
  show ?thesis by (simp add: release_url_def)
qed

text \<open>
  Claim C5. When the release is fetched and its first asset named \<^verbatim>\<open>SteamKM.exe\<close>
  reports the size 0 (or no size, which line 45 reads as 0), the download fails with the
  exception of line 47, which is the failure the spec calls \<^verbatim>\<open>InvalidAssetError\<close>.
  The request for the release is the only event: the asset is not requested and the
  progress callback is not called. The file system is as it was: nothing is written.
\<close>

theorem zero_size_asset:
  assumes "release_response env = Inr rel"
    and "assets rel = Some (pre @ a # post)"
    and "\<forall>x\<in>set pre. asset_name x \<noteq> Some ''SteamKM.exe''"
    and "asset_name a = Some ''SteamKM.exe''"
    and "asset_size a = Some 0 \<or> asset_size a = None"
  shows "download_update env latest_version fs =
           (Inl (Exception ''Failed to get file size.''), fs,
            [HttpGet (Some (release_url latest_version))])"
  using assms
  by (auto simp add: download_update_def for_assets_first_match download_asset_def)

theorem zero_size_asset_witness:
  "fst (download_update (example_env [notes_asset, exe_asset 0] [[1, 2], [3, 4, 5]]) ''1.3.0''
     example_fs) = Inl (Exception ''Failed to get file size.'') \<and>
   fst (snd (download_update (example_env [notes_asset, exe_asset 0] [[1, 2], [3, 4, 5]])
     ''1.3.0'' example_fs)) = example_fs \<and>
   snd (snd (download_update (example_env [notes_asset, exe_asset 0] [[1, 2], [3, 4, 5]])
     ''1.3.0'' example_fs)) =
     [HttpGet (Some ''https://api.github.com/repos/AbelSniffel/SteamKM/releases/tags/1.3.0'')]"
proof -
  let ?env = "example_env [notes_asset, exe_asset 0] [[1, 2], [3, 4, 5]]"
  have h1: "release_response ?env = Inr (example_release [notes_asset, exe_asset 0])"
    by (simp add: example_env_def)
  have h2: "assets (example_release [notes_asset, exe_asset 0]) =
              Some ([notes_asset] @ exe_asset 0 # [])"
    by (simp add: example_release_def)
  have h3: "\<forall>x\<in>set [notes_asset]. asset_name x \<noteq> Some ''SteamKM.exe''"
    by (simp add: notes_asset_def)
  have h4: "asset_name (exe_asset 0) = Some ''SteamKM.exe''"
    by (simp add: exe_asset_def)
  have h5: "asset_size (exe_asset 0) = Some 0 \<or> asset_size (exe_asset 0) = None"
    by (simp add: exe_asset_def)
  from zero_size_asset [OF h1 h2 h3 h4 h5, of "''1.3.0''" example_fs]
  show ?thesis by (simp add: release_url_def)
qed

section \<open>The update check\<close>

text \<open>
  Claim C6. When the fetch of the latest release raises an exception of \<^verbatim>\<open>requests\<close>,
  or \<^verbatim>\<open>parse\<close> rejects the fetched tag or the running build, \<^verbatim>\<open>check_for_updates\<close>
  returns the running build instead of raising, so \<^verbatim>\<open>UpdateCheckThread.run\<close> emits
  \<open>False\<close>; and exactly one message box is shown, which carries the exception \<open>e\<close> that
  was raised. This holds for every parser and every order of versions.
\<close>

theorem check_error_means_no_update:
  assumes "response = Inl (RequestException m) \<and> e = RequestException m \<or>
           (\<exists>json. response = Inr json \<and> parse (latest_tag json) = None \<and>
                    e = InvalidVersion (latest_tag json)) \<or>
           (\<exists>json v. response = Inr json \<and> parse (latest_tag json) = Some v \<and>
                    parse CURRENT_BUILD = None \<and> e = InvalidVersion CURRENT_BUILD)"
  shows "check_for_updates parse gt CURRENT_BUILD response =
           (Inr CURRENT_BUILD, [MessageBoxCritical ''Update Error'' e]) \<and>
         UpdateCheckThread_run parse gt CURRENT_BUILD response =
           (Inr False, [MessageBoxCritical ''Update Error'' e])"
  using assms
  by (auto simp add: UpdateCheckThread_run_def check_for_updates_def Let_def)

theorem check_error_means_no_update_witness:
  "UpdateCheckThread_run parse_version version_gt ''1.2.0'' (Inl (RequestException ''timed out'')) =
     (Inr False, [MessageBoxCritical ''Update Error'' (RequestException ''timed out'')]) \<and>
   UpdateCheckThread_run parse_version version_gt ''1.2.0''
       (Inr \<lparr>tag_name = Some ''nightly'', assets = None\<rparr>) =
     (Inr False, [MessageBoxCritical ''Update Error'' (InvalidVersion ''nightly'')])"
proof -
  have p: "parse_version ''nightly'' = None"
    by (simp add: parse_version_def digit_value_def)
  have "UpdateCheckThread_run parse_version version_gt ''1.2.0''
          (Inl (RequestException ''timed out'')) =
        (Inr False, [MessageBoxCritical ''Update Error'' (RequestException ''timed out'')])"
    using check_error_means_no_update [where response = "Inl (RequestException ''timed out'')"
        and m = "''timed out''" and e = "RequestException ''timed out''"
        and parse = parse_version and gt = version_gt and CURRENT_BUILD = "''1.2.0''"]
    by simp
  moreover have "UpdateCheckThread_run parse_version version_gt ''1.2.0''
          (Inr \<lparr>tag_name = Some ''nightly'', assets = None\<rparr>) =
        (Inr False, [MessageBoxCritical ''Update Error'' (InvalidVersion ''nightly'')])"
    using p check_error_means_no_update [where response = "Inr \<lparr>tag_name = Some ''nightly'', assets = None\<rparr>"
        and e = "InvalidVersion ''nightly''"
        and parse = parse_version and gt = version_gt and CURRENT_BUILD = "''1.2.0''"]
    by (simp add: latest_tag_def)
  ultimately show ?thesis by simp
qed

text \<open>
  Claim C9. Every value that \<^verbatim>\<open>check_for_updates\<close> returns is the running build
  or else the fetched tag (\<^verbatim>\<open>0.0.0\<close> when the release has none), and in that case
  the tag and the running build both parse and the tag is greater. It does return a
  value whenever the fetch raises nothing but exceptions of \<^verbatim>\<open>requests\<close>, the ones
  the handler at line 28 catches. This holds for every parser and every order of
  versions.
\<close>

theorem check_returns_current_or_newer:
  "(\<forall>r. fst (check_for_updates parse gt CURRENT_BUILD response) = Inr r \<longrightarrow>
        r = CURRENT_BUILD \<or>
        (\<exists>json latest current. response = Inr json \<and> r = latest_tag json \<and>
            parse r = Some latest \<and> parse CURRENT_BUILD = Some current \<and>
            gt latest current)) \<and>
   ((\<forall>e. response = Inl e \<longrightarrow> caught e) \<longrightarrow>
      (\<exists>r. fst (check_for_updates parse gt CURRENT_BUILD response) = Inr r))"
  by (cases response)
    (auto simp add: check_for_updates_def Let_def split: option.splits if_splits)

theorem check_returns_current_or_newer_witness:
  "fst (check_for_updates parse_version version_gt ''1.2.0'' (Inr (example_release []))) =
     Inr ''1.3.0'' \<and>
   parse_version ''1.3.0'' = Some [1, 3, 0] \<and>
   parse_version ''1.2.0'' = Some [1, 2, 0] \<and>
   version_gt [1, 3, 0] [1, 2, 0]"
proof -
  have p1: "parse_version ''1.3.0'' = Some [1, 3, 0]"
    by (simp add: parse_version_def digit_value_def)
  have p2: "parse_version ''1.2.0'' = Some [1, 2, 0]"
    by (simp add: parse_version_def digit_value_def)
  have r: "fst (check_for_updates parse_version version_gt ''1.2.0''
             (Inr (example_release []))) = Inr ''1.3.0''"
    by (simp add: check_for_updates_def latest_tag_def example_release_def p1 p2
        version_gt_def cmpkey_def)
  from check_returns_current_or_newer [of parse_version version_gt "''1.2.0''"
      "Inr (example_release [])"] r
  have "\<exists>json latest current. (Inr (example_release []) :: exn + release) = Inr json \<and>
          ''1.3.0'' = latest_tag json \<and> parse_version ''1.3.0'' = Some latest \<and>
          parse_version ''1.2.0'' = Some current \<and> version_gt latest current"
    by auto
  with p1 p2 have "version_gt [1, 3, 0] [1, 2, 0]" by auto
  with r p1 p2 show ?thesis by blast
qed

section \<open>Speed and estimated time\<close>

text \<open>
  Claim C8. Take a call of the progress callback that a download makes, with \<open>d\<close> bytes
  so far and total \<open>t\<close>, the clock reading \<open>s\<close> that line 111 stored as the start of the
  download and the reading \<open>now\<close> of line 118. When \<open>s\<close> is not 0, the elapsed time is
  \<open>e = now - s\<close>, the speed is \<open>d / e\<close> when \<open>e\<close> is positive and 0 otherwise, the
  estimated time is \<open>(t - d) / speed\<close> when the speed is positive and 0 otherwise, and
  the signal carries \<open>d\<close>, \<open>t\<close> and that estimate. When the start is \<^verbatim>\<open>None\<close> or 0,
  line 118 takes the elapsed time to be 0, and the speed and the estimate are 0. The
  arithmetic is exact: the rounding of Python's floats is not modelled. The speed is
  computed at line 119 and is not part of the signal.
\<close>

theorem speed_and_eta:
  assumes "(d, t) \<in> set (progress_calls (snd (snd (download_update env latest_version fs))))"
  shows "(s \<noteq> 0 \<longrightarrow>
            (let e = now - s;
                 speed = (if 0 < e then real_of_int d / e else 0);
                 eta = (if 0 < speed then real_of_int (t - d) / speed else 0)
             in elapsed_time (Some s) now = e \<and>
                download_speed d (elapsed_time (Some s) now) = speed \<and>
                estimated_time d t (download_speed d (elapsed_time (Some s) now)) = eta \<and>
                update_progress (Some s) now d t = (d, t, eta))) \<and>
         elapsed_time None now = 0 \<and>
         elapsed_time (Some 0) now = 0 \<and>
         update_progress None now d t = (d, t, 0) \<and>
         update_progress (Some 0) now d t = (d, t, 0)"
proof -
  from assms have "0 \<le> d" by (rule progress_calls_nonneg)
  then show ?thesis
    by (simp add: Let_def elapsed_time_def download_speed_def estimated_time_def
        update_progress_def)
qed

theorem speed_and_eta_witness:
  "(2, 5) \<in> set (progress_calls (snd (snd (download_update
      (example_env [notes_asset, exe_asset 5] [[1, 2], [3, 4, 5]]) ''1.3.0'' example_fs)))) \<and>
   elapsed_time (Some 10) 12 = 12 - 10 \<and>
   download_speed 2 (elapsed_time (Some 10) 12) = 1 \<and>
   estimated_time 2 5 (download_speed 2 (elapsed_time (Some 10) 12)) = 3 \<and>
   update_progress (Some 10) 12 2 5 = (2, 5, 3) \<and>
   update_progress None 12 2 5 = (2, 5, 0)"
proof -
  have h: "(2, 5) \<in> set (progress_calls (snd (snd (download_update
      (example_env [notes_asset, exe_asset 5] [[1, 2], [3, 4, 5]]) ''1.3.0'' example_fs))))"
    by code_simp
  have s: "(10::real) \<noteq> 0" by simp
  from speed_and_eta [OF h, of 10 12] h s show ?thesis
    by (auto simp add: Let_def)
qed

section \<open>Loading the configuration\<close>

text \<open>
  Claim C10, as amended. \<^verbatim>\<open>load_config\<close> returns the empty dictionary when the file
  does not exist, and when the file is read and \<^verbatim>\<open>json.loads\<close> raises
  \<^verbatim>\<open>JSONDecodeError\<close> on its text; it returns the decoded value when
  \<^verbatim>\<open>json.loads\<close> accepts the text. It is not total: any other exception of
  \<^verbatim>\<open>json.loads\<close> on the text, and any exception of \<^verbatim>\<open>read_text()\<close> other than
  \<^verbatim>\<open>JSONDecodeError\<close>, leaves \<^verbatim>\<open>load_config\<close> as it was raised.
\<close>

theorem load_config_outcomes:
  "load_config json_loads None = Inr (JObject []) \<and>
   (json_loads text = Inl (JSONDecodeError m) \<longrightarrow>
      load_config json_loads (Some (Inr text)) = Inr (JObject [])) \<and>
   (json_loads text = Inr v \<longrightarrow> load_config json_loads (Some (Inr text)) = Inr v) \<and>
   (json_loads text = Inl e \<and> (\<forall>m. e \<noteq> JSONDecodeError m) \<longrightarrow>
      load_config json_loads (Some (Inr text)) = Inl e) \<and>
   ((\<forall>m. e \<noteq> JSONDecodeError m) \<longrightarrow> load_config json_loads (Some (Inl e)) = Inl e)"
  by (cases e) (simp_all add: load_config_def)

theorem load_config_outcomes_witness:
  "load_config example_json_loads None = Inr (JObject []) \<and>
   example_json_loads ''{'' = Inl (JSONDecodeError ''Expecting value'') \<and>
   load_config example_json_loads (Some (Inr ''{'')) = Inr (JObject []) \<and>
   example_json_loads ''[1]'' = Inr (JArray [JInt 1]) \<and>
   load_config example_json_loads (Some (Inr ''[1]'')) = Inr (JArray [JInt 1]) \<and>
   load_config example_json_loads (Some (Inl (OSError ''Permission denied''))) =
     Inl (OSError ''Permission denied'')"
proof -
  have h1: "example_json_loads ''{'' = Inl (JSONDecodeError ''Expecting value'')"
    by (simp add: example_json_loads_def)
  have h2: "example_json_loads ''[1]'' = Inr (JArray [JInt 1])"
    by (simp add: example_json_loads_def)
  have h3: "\<forall>m. OSError ''Permission denied'' \<noteq> JSONDecodeError m"
    by simp
  from load_config_outcomes [of example_json_loads "''{''" "''Expecting value''"]
    load_config_outcomes [of example_json_loads "''[1]''" _ "JArray [JInt 1]"
      "OSError ''Permission denied''"] h1 h2 h3
  show ?thesis by blast
qed

text \<open>
  The claim C10 as it stands, that \<^verbatim>\<open>load_config\<close> returns the empty dictionary
  rather than raising whenever the file exists and does not hold well-formed JSON, fails
  on a file whose bytes are not text in the encoding: \<^verbatim>\<open>read_text()\<close> raises
  \<^verbatim>\<open>UnicodeDecodeError\<close>, which line 11 does not catch.
\<close>

theorem load_config_total_counterexample:
  "load_config example_json_loads (Some (Inl (UnicodeDecodeError ''invalid start byte''))) =
     Inl (UnicodeDecodeError ''invalid start byte'')"
  by (simp add: load_config_def)

section \<open>The order of versions\<close>

text \<open>
  The order of tuples is a strict total order, and it ignores a common prefix. The key
  of a version is a prefix of the version, and it keeps every segment up to the last
  one that is not zero.
\<close>

lemma tuple_less_irrefl: "\<not> tuple_less xs xs"
  by (induction xs) simp_all

lemma tuple_less_trans: "tuple_less xs ys \<Longrightarrow> tuple_less ys zs \<Longrightarrow> tuple_less xs zs"
proof (induction xs ys arbitrary: zs rule: tuple_less.induct)
  case (2 y ys)
  then show ?case by (cases zs) simp_all
next
  case (4 x xs y ys)
  then show ?case by (cases zs) auto
qed simp_all

lemma tuple_less_total: "tuple_less xs ys \<or> xs = ys \<or> tuple_less ys xs"
  by (induction xs ys rule: tuple_less.induct) auto

lemma tuple_less_asym: "tuple_less xs ys \<Longrightarrow> \<not> tuple_less ys xs"
  using tuple_less_trans tuple_less_irrefl by blast

lemma tuple_less_append: "tuple_less (p @ xs) (p @ ys) = tuple_less xs ys"
  by (induction p) simp_all

lemma cmpkey_append:
  "cmpkey (xs @ ys) = (if \<forall>y\<in>set ys. y = 0 then cmpkey xs else xs @ cmpkey ys)"
  by (auto simp add: cmpkey_def dropWhile_append)

lemma cmpkey_prefix: "\<exists>zs. xs = cmpkey xs @ zs"
proof -
  have "rev xs = takeWhile (\<lambda>n. n = 0) (rev xs) @ dropWhile (\<lambda>n. n = 0) (rev xs)"
    by simp
  then have "xs = rev (dropWhile (\<lambda>n. n = 0) (rev xs)) @ rev (takeWhile (\<lambda>n. n = 0) (rev xs))"
    by (metis rev_append rev_rev_ident)
  then show ?thesis unfolding cmpkey_def by blast
qed

lemma cmpkey_Cons:
  "cmpkey (x # s) =
     (if \<forall>n\<in>set s. n = 0 then (if x = 0 then [] else [x]) else x # cmpkey s)"
  using cmpkey_append [of "[x]" s] by (auto simp add: cmpkey_def)

lemma cmpkey_Cons_nonzero: "y \<noteq> 0 \<Longrightarrow> cmpkey (y # s) = y # cmpkey s"
  by (simp add: cmpkey_Cons) (simp add: cmpkey_def)

lemma version_gt_first_difference:
  assumes "x < y"
  shows "version_gt (p @ y # t) (p @ x # s)"
proof -
  from assms have y: "y \<noteq> 0" by simp
  then have ky: "cmpkey (p @ y # t) = p @ y # cmpkey t"
    by (simp add: cmpkey_append cmpkey_Cons_nonzero)
  show ?thesis
  proof (cases "\<forall>n\<in>set (x # s). n = 0")
    case True
    then have kx: "cmpkey (p @ x # s) = cmpkey p" by (simp add: cmpkey_append)
    obtain zs where p: "p = cmpkey p @ zs" using cmpkey_prefix by blast
    have "tuple_less (cmpkey p @ []) (cmpkey p @ zs @ y # cmpkey t)"
      unfolding tuple_less_append by (cases zs) simp_all
    with p have "tuple_less (cmpkey p) (p @ y # cmpkey t)" by (metis append.assoc append_Nil2)
    with kx ky show ?thesis by (simp add: version_gt_def)
  next
    case False
    have kx: "cmpkey (p @ x # s) = p @ cmpkey (x # s)"
      unfolding cmpkey_append [of p "x # s"] using False by (simp only: if_False)
    have "tuple_less (cmpkey (x # s)) (y # cmpkey t)"
      using assms by (simp add: cmpkey_Cons)
    with kx ky show ?thesis by (simp add: version_gt_def tuple_less_append)
  qed
qed

lemma cmpkey_trailing_zeros: "cmpkey (u @ replicate k 0) = cmpkey u"
  by (simp add: cmpkey_append)

text \<open>
  Claim C7. For version strings that parse, \<open>compare\<close> is a strict total order on the
  versions they denote: a version equals itself, any two versions are less, equal or
  greater, greater is the converse of less, two versions are equal exactly when their
  segments agree up to trailing zeros, and less is transitive. The order is the numeric
  order of the segments: versions that agree on their first segments are ordered by the
  first segment in which they differ, compared as numbers, and a version followed by
  zero segments equals it. In particular \<^verbatim>\<open>1.10.0\<close> is greater than \<^verbatim>\<open>1.9.9\<close>.
\<close>

theorem compare_strict_total_order:
  assumes "parse_version a = Some u" and "parse_version b = Some v"
    and "parse_version c = Some w"
  shows "compare a a = Inr Equal \<and>
         (compare a b = Inr Less \<or> compare a b = Inr Equal \<or> compare a b = Inr Greater) \<and>
         (compare a b = Inr Greater \<longleftrightarrow> compare b a = Inr Less) \<and>
         (compare a b = Inr Equal \<longleftrightarrow> cmpkey u = cmpkey v) \<and>
         (compare a b = Inr Less \<and> compare b c = Inr Less \<longrightarrow> compare a c = Inr Less) \<and>
         (\<forall>p x y s t. u = p @ x # s \<and> v = p @ y # t \<and> x < y \<longrightarrow> compare a b = Inr Less) \<and>
         (\<forall>k. v = u @ replicate k 0 \<longrightarrow> compare a b = Inr Equal) \<and>
         compare ''1.10.0'' ''1.9.9'' = Inr Greater"
proof -
  have refl: "compare a a = Inr Equal"
    using assms(1) by (simp add: compare_def version_gt_def tuple_less_irrefl)
  have cases3: "compare a b = Inr Less \<or> compare a b = Inr Equal \<or> compare a b = Inr Greater"
    using assms(1,2) by (simp add: compare_def)
  have less: "\<And>a b u v. parse_version a = Some u \<Longrightarrow> parse_version b = Some v \<Longrightarrow>
      (compare a b = Inr Less) = tuple_less (cmpkey u) (cmpkey v)"
    by (simp add: compare_def version_gt_def)
  have greater: "(compare a b = Inr Greater) = tuple_less (cmpkey v) (cmpkey u)"
    using assms(1,2) tuple_less_asym [of "cmpkey v" "cmpkey u"]
    by (auto simp add: compare_def version_gt_def)
  have equal: "(compare a b = Inr Equal) = (cmpkey u = cmpkey v)"
    using assms(1,2) tuple_less_total [of "cmpkey u" "cmpkey v"] tuple_less_irrefl [of "cmpkey v"]
    by (auto simp add: compare_def version_gt_def)
  have sym: "compare a b = Inr Greater \<longleftrightarrow> compare b a = Inr Less"
    using greater less [OF assms(2) assms(1)] by simp
  have trans: "compare a b = Inr Less \<and> compare b c = Inr Less \<longrightarrow> compare a c = Inr Less"
    using less [OF assms(1) assms(2)] less [OF assms(2) assms(3)] less [OF assms(1) assms(3)]
      tuple_less_trans by blast
  have diff: "\<forall>p x y s t. u = p @ x # s \<and> v = p @ y # t \<and> x < y \<longrightarrow> compare a b = Inr Less"
    using less [OF assms(1) assms(2)] version_gt_first_difference
    by (auto simp add: version_gt_def)
  have zeros: "\<forall>k. v = u @ replicate k 0 \<longrightarrow> compare a b = Inr Equal"
    using equal by (auto simp add: cmpkey_trailing_zeros)
  have ex: "compare ''1.10.0'' ''1.9.9'' = Inr Greater"
    by code_simp
  from refl cases3 sym equal trans diff zeros ex show ?thesis by blast
qed


theorem compare_strict_total_order_witness:
  "parse_version ''1.9.9'' = Some [1, 9, 9] \<and>
   parse_version ''1.10.0'' = Some [1, 10, 0] \<and>
   parse_version ''2.0'' = Some [2, 0] \<and>
   compare ''1.9.9'' ''1.10.0'' = Inr Less \<and>
   compare ''1.10.0'' ''2.0'' = Inr Less \<and>
   compare ''1.9.9'' ''2.0'' = Inr Less \<and>
   compare ''1.10.0'' ''1.9.9'' = Inr Greater"
proof -
  have h1: "parse_version ''1.9.9'' = Some [1, 9, 9]"
    by (simp add: parse_version_def digit_value_def)
  have h2: "parse_version ''1.10.0'' = Some [1, 10, 0]"
    by (simp add: parse_version_def digit_value_def)
  have h3: "parse_version ''2.0'' = Some [2, 0]"
    by (simp add: parse_version_def digit_value_def)
  have l1: "compare ''1.9.9'' ''1.10.0'' = Inr Less"
    by (simp add: compare_def h1 h2 version_gt_def cmpkey_def)
  have l2: "compare ''1.10.0'' ''2.0'' = Inr Less"
    by (simp add: compare_def h2 h3 version_gt_def cmpkey_def)
  from compare_strict_total_order [OF h1 h2 h3] h1 h2 h3 l1 l2 show ?thesis by blast
qed

end
